theory Spec2Isabelle
  imports Complex_Main "HOL-Library.Multiset"
begin

section \<open>Derived-value classification (\<open>getAqiLevel\<close>, \<open>getUvLevel\<close> in src/src/App.jsx)\<close>

text \<open>
  Both classifiers are cascades of \<open>if (x <= bound) return {...}\<close>. The returned object
  literals are records of strings; numbers are modelled as reals.
\<close>

record aqi_level =
  label :: string
  color :: string
  bg :: string

record uv_level =
  uv_label :: string
  uv_color :: string

definition getAqiLevel :: "real \<Rightarrow> aqi_level" where
  "getAqiLevel aqi =
     (if aqi \<le> 50 then \<lparr>label = ''Good'', color = ''text-emerald-400'', bg = ''bg-emerald-500/20''\<rparr>
      else if aqi \<le> 100 then \<lparr>label = ''Moderate'', color = ''text-yellow-400'', bg = ''bg-yellow-500/20''\<rparr>
      else if aqi \<le> 150 then \<lparr>label = ''Unhealthy for Sensitive'', color = ''text-orange-400'', bg = ''bg-orange-500/20''\<rparr>
      else if aqi \<le> 200 then \<lparr>label = ''Unhealthy'', color = ''text-red-400'', bg = ''bg-red-500/20''\<rparr>
      else if aqi \<le> 300 then \<lparr>label = ''Very Unhealthy'', color = ''text-purple-400'', bg = ''bg-purple-500/20''\<rparr>
      else \<lparr>label = ''Hazardous'', color = ''text-rose-400'', bg = ''bg-rose-500/20''\<rparr>)"

definition getUvLevel :: "real \<Rightarrow> uv_level" where
  "getUvLevel uv =
     (if uv \<le> 2 then \<lparr>uv_label = ''Low'', uv_color = ''text-emerald-400''\<rparr>
      else if uv \<le> 5 then \<lparr>uv_label = ''Moderate'', uv_color = ''text-yellow-400''\<rparr>
      else if uv \<le> 7 then \<lparr>uv_label = ''High'', uv_color = ''text-orange-400''\<rparr>
      else if uv \<le> 10 then \<lparr>uv_label = ''Very High'', uv_color = ''text-red-400''\<rparr>
      else \<lparr>uv_label = ''Extreme'', uv_color = ''text-purple-400''\<rparr>)"


section \<open>Snowfall fusion (\<open>fetchExtended\<close> in \<open>ModelsTab\<close>, \<open>fetchWeatherData\<close> in \<open>App\<close>)\<close>

text \<open>
  The model responses are JSON arrays whose entries are numbers or \<open>null\<close> (a model that
  does not reach a time step reports \<open>null\<close> there).
\<close>

datatype json_num = Null | Num real

text \<open>\<open>arr[i]\<close>: reading past the end of a JavaScript array yields \<open>undefined\<close> (here \<open>None\<close>).\<close>

definition index :: "'a list \<Rightarrow> nat \<Rightarrow> 'a option" where
  "index arr i = (if i < length arr then Some (arr ! i) else None)"

text \<open>\<open>x || 0\<close>: \<open>undefined\<close>, \<open>null\<close> and \<open>0\<close> are falsy and give \<open>0\<close>.\<close>

fun or_zero :: "json_num option \<Rightarrow> real" where
  "or_zero None = 0"
| "or_zero (Some Null) = 0"
| "or_zero (Some (Num v)) = (if v = 0 then 0 else v)"

text \<open>\<open>Math.max(gfs, y)\<close>: the first argument is converted with ToNumber, and \<open>null\<close> converts to \<open>0\<close>.\<close>

fun ToNumber :: "json_num \<Rightarrow> real" where
  "ToNumber Null = 0"
| "ToNumber (Num v) = v"

definition Math_max :: "json_num \<Rightarrow> real \<Rightarrow> real" where
  "Math_max a b = max (ToNumber a) b"

text \<open>
  \<open>gfs.map((gfs, i) => Math.max(gfs, gem[i] || 0))\<close>: the callback runs once for each
  element of the primary (GFS) array, with its index.
\<close>

definition fuse_series :: "json_num list \<Rightarrow> json_num list \<Rightarrow> real list" where
  "fuse_series gfs gem =
     map (\<lambda>(g, i). Math_max g (or_zero (index gem i))) (zip gfs [0..<length gfs])"

text \<open>
  The guard \<open>if (gem.x?.snowfall && gfs.x?.snowfall)\<close>: fusion happens only when both
  responses carry the series (\<open>None\<close> is a missing field); otherwise the GFS field is left
  as it came.
\<close>

definition fuse_field :: "json_num list option \<Rightarrow> json_num list option \<Rightarrow> json_num list option" where
  "fuse_field gfs gem =
     (case (gem, gfs) of
        (Some s, Some p) \<Rightarrow> Some (map Num (fuse_series p s))
      | _ \<Rightarrow> gfs)"

text \<open>
  The fusion as section 4.3 of the specification words it: the maximum where both series
  have a value, and the value of the longer series where the other has ended.
\<close>

fun fuse_spec :: "real list \<Rightarrow> real list \<Rightarrow> real list" where
  "fuse_spec [] ys = ys"
| "fuse_spec xs [] = xs"
| "fuse_spec (x # xs) (y # ys) = max x y # fuse_spec xs ys"

text \<open>
  The query parameters of the two requests of \<open>fetchExtended\<close>, in the order of the URL
  templates (latitude and longitude are interpolated from the location and left out).
\<close>

definition gfs_extended_query :: "(string \<times> string) list" where
  "gfs_extended_query =
     [(''hourly'', ''temperature_2m,precipitation_probability,precipitation,snowfall,freezing_level_height,snow_depth,wind_speed_10m,wind_gusts_10m,cape,lifted_index,convective_inhibition,visibility''),
      (''daily'', ''temperature_2m_max,temperature_2m_min,precipitation_sum,snowfall_sum,precipitation_probability_max''),
      (''temperature_unit'', ''fahrenheit''),
      (''wind_speed_unit'', ''mph''),
      (''precipitation_unit'', ''inch''),
      (''timezone'', ''America/New_York''),
      (''forecast_days'', ''16'')]"

definition gem_extended_query :: "(string \<times> string) list" where
  "gem_extended_query =
     [(''hourly'', ''snowfall''),
      (''daily'', ''snowfall_sum''),
      (''timezone'', ''America/New_York''),
      (''forecast_days'', ''16'')]"

text \<open>The daily requests of \<open>fetchWeatherData\<close> (the cache-busting \<open>_t\<close> parameter left out).\<close>

definition gfs_daily_query :: "(string \<times> string) list" where
  "gfs_daily_query =
     [(''daily'', ''weather_code,temperature_2m_max,temperature_2m_min,apparent_temperature_max,apparent_temperature_min,precipitation_sum,precipitation_probability_max,snowfall_sum,wind_speed_10m_max,wind_gusts_10m_max,wind_direction_10m_dominant,uv_index_max,sunrise,sunset''),
      (''current'', ''uv_index,visibility,dew_point_2m''),
      (''temperature_unit'', ''fahrenheit''),
      (''wind_speed_unit'', ''mph''),
      (''precipitation_unit'', ''inch''),
      (''timezone'', ''America/New_York''),
      (''forecast_days'', ''16'')]"

definition gem_daily_query :: "(string \<times> string) list" where
  "gem_daily_query =
     [(''daily'', ''snowfall_sum''),
      (''timezone'', ''America/New_York''),
      (''forecast_days'', ''16'')]"

text \<open>The value a request gives for a query parameter, if it names the parameter at all.\<close>

definition query_param :: "(string \<times> string) list \<Rightarrow> string \<Rightarrow> string option" where
  "query_param q k = map_of q k"


section \<open>Radar frames (\<open>fetchFrames\<close> and playback in \<open>RadarTab\<close>, \<open>MiniRadar\<close>)\<close>

record frame =
  time :: int
  path :: string

subsection \<open>The JavaScript \<open>Map\<close>\<close>

text \<open>
  A \<open>Map\<close> keeps its entries in insertion order; \<open>set\<close> on a key that is present replaces
  the value and leaves the entry where it is, \<open>set\<close> on a new key appends.
\<close>

type_synonym ('k, 'v) js_map = "('k \<times> 'v) list"

fun map_set :: "'k \<Rightarrow> 'v \<Rightarrow> ('k, 'v) js_map \<Rightarrow> ('k, 'v) js_map" where
  "map_set k v [] = [(k, v)]"
| "map_set k v ((k', v') # m) = (if k' = k then (k, v) # m else (k', v') # map_set k v m)"

definition map_values :: "('k, 'v) js_map \<Rightarrow> 'v list" where
  "map_values m = map snd m"

subsection \<open>The merge of \<open>fetchFrames\<close>\<close>

definition MAX_AGE_HOURS :: int where
  "MAX_AGE_HOURS = 4"

definition MAX_AGE_SECONDS :: int where
  "MAX_AGE_SECONDS = MAX_AGE_HOURS * 60 * 60"

text \<open>\<open>cachedFrames.forEach(f => { if (f.time >= cutoff) frameMap.set(f.time, f) })\<close>\<close>

definition add_cached :: "int \<Rightarrow> frame list \<Rightarrow> (int, frame) js_map \<Rightarrow> (int, frame) js_map" where
  "add_cached cutoff cachedFrames frameMap =
     fold (\<lambda>f m. if time f \<ge> cutoff then map_set (time f) f m else m) cachedFrames frameMap"

text \<open>\<open>newFrames.forEach(f => frameMap.set(f.time, f))\<close>\<close>

definition add_new :: "frame list \<Rightarrow> (int, frame) js_map \<Rightarrow> (int, frame) js_map" where
  "add_new newFrames frameMap = fold (\<lambda>f m. map_set (time f) f m) newFrames frameMap"

text \<open>
  Lines 1906 to 1919 on a cached window that is a list of frames: an empty map, the
  cached frames not older than the cutoff, the new frames over them, then the values
  sorted by \<open>(a, b) => a.time - b.time\<close> (ascending time; \<open>Array.prototype.sort\<close> is
  stable, as \<open>sort_key\<close> is). The maximum age is a parameter here; \<open>fetchFrames\<close> passes
  \<open>MAX_AGE_SECONDS\<close>. What the same lines do on a stored value of any shape is
  \<open>merge_cached\<close> below.
\<close>

definition merge_frames :: "frame list \<Rightarrow> frame list \<Rightarrow> int \<Rightarrow> int \<Rightarrow> frame list" where
  "merge_frames cachedFrames newFrames now maxAgeSeconds =
     (let cutoff = now - maxAgeSeconds;
          frameMap = add_new newFrames (add_cached cutoff cachedFrames [])
      in sort_key time (map_values frameMap))"

subsection \<open>Local storage and the poll\<close>

datatype js_error = NetworkError | SecurityError | SyntaxError | QuotaExceededError | TypeError

text \<open>
  What \<open>JSON.parse\<close> can return for the text kept under \<open>CACHE_KEY\<close>. An array holds
  frames (objects with a numeric \<open>time\<close>), \<open>null\<close> entries, and other entries without a
  numeric \<open>time\<close> (numbers, strings, booleans, objects that lack the field). Anything that
  is not an array (\<open>null\<close>, an object, a number, a string, a boolean) is \<open>JOther\<close>.
\<close>

datatype json_elem = Frame_elem frame | Null_elem | Other_elem

datatype json_value = JArray "json_elem list" | JOther

text \<open>The stored text itself: text that parses to a value, or text that \<open>JSON.parse\<close> rejects.\<close>

datatype json_text = Json json_value | Malformed

record local_storage =
  item :: "json_text option"
  getItem_throws :: bool
  setItem_throws :: bool

definition getItem :: "local_storage \<Rightarrow> js_error + json_text option" where
  "getItem st = (if getItem_throws st then Inl SecurityError else Inr (item st))"

fun JSON_parse :: "json_text \<Rightarrow> js_error + json_value" where
  "JSON_parse (Json v) = Inr v"
| "JSON_parse Malformed = Inl SyntaxError"

definition JSON_stringify :: "frame list \<Rightarrow> json_text" where
  "JSON_stringify fs = Json (JArray (map Frame_elem fs))"

definition setItem :: "local_storage \<Rightarrow> json_text \<Rightarrow> js_error + local_storage" where
  "setItem st v = (if setItem_throws st then Inl QuotaExceededError else Inr (st\<lparr>item := Some v\<rparr>))"

text \<open>
  Lines 1899 to 1903: \<open>cachedFrames\<close> starts as \<open>[]\<close> and is replaced by whatever the parse
  returns when the read and the parse both succeed; the empty \<open>catch (e) {}\<close> drops an
  error of either. Nothing checks that the parsed value is an array of frames.
\<close>

definition load_cached :: "local_storage \<Rightarrow> json_value" where
  "load_cached st =
     (case getItem st of
        Inl e \<Rightarrow> JArray []
      | Inr None \<Rightarrow> JArray []
      | Inr (Some cached) \<Rightarrow> (case JSON_parse cached of Inl e \<Rightarrow> JArray [] | Inr v \<Rightarrow> v))"

text \<open>
  Lines 1911 to 1913 on what was loaded. The loop stands outside the inner \<open>try\<close>:
  reading \<open>f.time\<close> of a \<open>null\<close> entry throws a TypeError that ends the poll in the outer
  \<open>catch\<close>. An entry without a numeric \<open>time\<close> fails the comparison and is skipped.
\<close>

fun forEach_cached :: "int \<Rightarrow> json_elem list \<Rightarrow> (int, frame) js_map \<Rightarrow> js_error + (int, frame) js_map" where
  "forEach_cached cutoff [] frameMap = Inr frameMap"
| "forEach_cached cutoff (Null_elem # es) frameMap = Inl TypeError"
| "forEach_cached cutoff (Other_elem # es) frameMap = forEach_cached cutoff es frameMap"
| "forEach_cached cutoff (Frame_elem f # es) frameMap =
     forEach_cached cutoff es (if time f \<ge> cutoff then map_set (time f) f frameMap else frameMap)"

text \<open>
  Lines 1906 to 1919 on what was loaded: a value that is not an array has no \<open>forEach\<close>,
  and the call throws a TypeError as well.
\<close>

definition merge_cached :: "json_value \<Rightarrow> frame list \<Rightarrow> int \<Rightarrow> int \<Rightarrow> js_error + frame list" where
  "merge_cached cachedFrames newFrames now maxAgeSeconds =
     (let cutoff = now - maxAgeSeconds
      in case cachedFrames of
           JOther \<Rightarrow> Inl TypeError
         | JArray es \<Rightarrow>
             (case forEach_cached cutoff es [] of
                Inl e \<Rightarrow> Inl e
              | Inr frameMap \<Rightarrow> Inr (sort_key time (map_values (add_new newFrames frameMap)))))"

text \<open>
  Lines 1922 to 1924: the frames with \<open>f.time <= now\<close> are written; an error of the write
  is dropped and the storage stays as it was.
\<close>

definition persisted_frames :: "frame list \<Rightarrow> int \<Rightarrow> frame list" where
  "persisted_frames allFrames now = filter (\<lambda>f. time f \<le> now) allFrames"

definition save_cached :: "local_storage \<Rightarrow> frame list \<Rightarrow> int \<Rightarrow> local_storage" where
  "save_cached st allFrames now =
     (case setItem st (JSON_stringify (persisted_frames allFrames now)) of
        Inl e \<Rightarrow> st
      | Inr st' \<Rightarrow> st')"

text \<open>The manifest of the tile provider; \<open>nowcast\<close> and \<open>satellite.infrared\<close> may be absent.\<close>

record manifest =
  radar_past :: "frame list"
  radar_nowcast :: "frame list option"
  satellite_infrared :: "frame list option"

record radar_tab =
  radarFrames :: "frame list"
  satelliteFrames :: "frame list"
  currentFrame :: int
  isPlaying :: bool

text \<open>\<open>data.radar.past.concat(data.radar.nowcast || [])\<close>\<close>

definition newFrames_of :: "manifest \<Rightarrow> frame list" where
  "newFrames_of data = radar_past data @ (case radar_nowcast data of None \<Rightarrow> [] | Some fs \<Rightarrow> fs)"

text \<open>\<open>Math.floor(Date.now() / 1000)\<close>, the clock being in milliseconds.\<close>

definition now_seconds :: "int \<Rightarrow> int" where
  "now_seconds date_now = date_now div 1000"

text \<open>
  The body of the outer \<open>try\<close> of \<open>fetchFrames\<close>: \<open>Inl\<close> is an exception that reaches the
  outer \<open>catch\<close>: a failed fetch, or the TypeError of the loop over a stored value that is
  not an array of entries other than \<open>null\<close>. The fetch (and the decoding of its response)
  is the first argument.
\<close>

definition fetchFrames_body ::
  "js_error + manifest \<Rightarrow> int \<Rightarrow> radar_tab \<times> local_storage \<Rightarrow> js_error + radar_tab \<times> local_storage" where
  "fetchFrames_body res date_now s =
     (case res of
        Inl e \<Rightarrow> Inl e
      | Inr data \<Rightarrow>
          (let (ui, st) = s;
               newFrames = newFrames_of data;
               cachedFrames = load_cached st;
               now = now_seconds date_now
           in case merge_cached cachedFrames newFrames now MAX_AGE_SECONDS of
                Inl e \<Rightarrow> Inl e
              | Inr allFrames \<Rightarrow>
                  (let st' = save_cached st allFrames now;
                       ui' = ui\<lparr>radarFrames := allFrames\<rparr>;
                       ui'' = (case satellite_infrared data of
                                 None \<Rightarrow> ui'
                               | Some sat \<Rightarrow> ui'\<lparr>satelliteFrames := sat\<rparr>)
                   in Inr (ui''\<lparr>currentFrame := 0\<rparr>, st'))))"

text \<open>\<open>fetchFrames\<close>: the outer \<open>catch\<close> logs the error and leaves everything as it was.\<close>

definition fetchFrames ::
  "js_error + manifest \<Rightarrow> int \<Rightarrow> radar_tab \<times> local_storage \<Rightarrow> radar_tab \<times> local_storage" where
  "fetchFrames res date_now s =
     (case fetchFrames_body res date_now s of Inl err \<Rightarrow> s | Inr s' \<Rightarrow> s')"

subsection \<open>Playback\<close>

text \<open>
  The remainder operator \<open>%\<close> takes the sign of the dividend. It is only reached with a
  divisor that is not zero: both timers return early when there are no frames.
\<close>

definition js_rem :: "int \<Rightarrow> int \<Rightarrow> int" where
  "js_rem a b = sgn a * (\<bar>a\<bar> mod \<bar>b\<bar>)"

text \<open>The updater \<open>(prev) => (prev + 1) % radarFrames.length\<close> of both timers.\<close>

definition advance :: "nat \<Rightarrow> int \<Rightarrow> int" where
  "advance len prev = js_rem (prev + 1) (int len)"

text \<open>One firing of the interval of \<open>RadarTab\<close> (lines 1978 to 1984).\<close>

definition playback_tick :: "radar_tab \<Rightarrow> radar_tab" where
  "playback_tick s =
     (if \<not> isPlaying s \<or> length (radarFrames s) = 0 then s
      else s\<lparr>currentFrame := advance (length (radarFrames s)) (currentFrame s)\<rparr>)"

record mini_radar =
  mini_radarFrames :: "frame list"
  mini_currentFrame :: int
  zoomComplete :: bool

text \<open>One firing of the interval of \<open>MiniRadar\<close> (lines 647 to 653).\<close>

definition mini_playback_tick :: "mini_radar \<Rightarrow> mini_radar" where
  "mini_playback_tick s =
     (if length (mini_radarFrames s) = 0 \<or> \<not> zoomComplete s then s
      else s\<lparr>mini_currentFrame := advance (length (mini_radarFrames s)) (mini_currentFrame s)\<rparr>)"

text \<open>
  The timeline scrubber (lines 2213 to 2223) is \<open><input type="range" min="0"
  max={radarFrames.length - 1}>\<close> with the default step of 1. The element, not the handler,
  bounds the value: a range input keeps its value between \<open>min\<close> and \<open>max\<close>, and at \<open>min\<close>
  when \<open>max\<close> is below \<open>min\<close>.
\<close>

definition range_input_value :: "int \<Rightarrow> int \<Rightarrow> int \<Rightarrow> int" where
  "range_input_value mn mx v =
     (if mx < mn then mn else if v < mn then mn else if mx < v then mx else v)"

text \<open>The handler: \<open>setCurrentFrame(parseInt(e.target.value)); setIsPlaying(false)\<close>.\<close>

definition scrubber_onChange :: "radar_tab \<Rightarrow> int \<Rightarrow> radar_tab" where
  "scrubber_onChange s v = s\<lparr>currentFrame := v, isPlaying := False\<rparr>"

text \<open>A scrub to a requested position: the element delivers its value to the handler.\<close>

definition scrub :: "radar_tab \<Rightarrow> int \<Rightarrow> radar_tab" where
  "scrub s requested =
     scrubber_onChange s (range_input_value 0 (int (length (radarFrames s)) - 1) requested)"

subsection \<open>The merged window as a function of time\<close>

text \<open>The last frame of a list that carries the time \<open>t\<close>, if any does.\<close>

definition latest_at :: "frame list \<Rightarrow> int \<Rightarrow> frame option" where
  "latest_at fs t =
     (let xs = filter (\<lambda>f. time f = t) fs in if xs = [] then None else Some (last xs))"

text \<open>
  What the map of \<open>fetchFrames\<close> holds for a time once both loops have run: the last new
  frame with that time, and otherwise the last cached frame with it that passed the cutoff.
\<close>

definition frame_at :: "frame list \<Rightarrow> frame list \<Rightarrow> int \<Rightarrow> int \<Rightarrow> frame option" where
  "frame_at W F c t =
     (case latest_at F t of
        None \<Rightarrow> latest_at (filter (\<lambda>f. c \<le> time f) W) t
      | Some f \<Rightarrow> Some f)"

text \<open>The frames among the entries of a stored array, in their order.\<close>

fun frames_of :: "json_elem list \<Rightarrow> frame list" where
  "frames_of [] = []"
| "frames_of (Frame_elem f # es) = f # frames_of es"
| "frames_of (Null_elem # es) = frames_of es"
| "frames_of (Other_elem # es) = frames_of es"

fun cached_frames :: "json_value \<Rightarrow> frame list" where
  "cached_frames (JArray es) = frames_of es"
| "cached_frames JOther = []"

text \<open>A loaded value on which the loop over the cached frames does not throw.\<close>

fun well_formed_cache :: "json_value \<Rightarrow> bool" where
  "well_formed_cache (JArray es) = (Null_elem \<notin> set es)"
| "well_formed_cache JOther = False"

text \<open>Every entry of the map sits under the time of its frame, and no key occurs twice.\<close>

definition keyed_by_time :: "(int, frame) js_map \<Rightarrow> bool" where
  "keyed_by_time m = (list_all (\<lambda>(k, f). k = time f) m \<and> distinct (map fst m))"


subsection \<open>Sample inputs\<close>

text \<open>Concrete windows, manifests and storages on which the theorems below are exercised.\<close>

definition five_frames :: "frame list" where
  "five_frames = map (\<lambda>t. \<lparr>time = t, path = ''/p''\<rparr>) [1, 2, 3, 4, 5]"


definition sample_tab :: radar_tab where
  "sample_tab = \<lparr>radarFrames = [], satelliteFrames = [], currentFrame = 3, isPlaying = True\<rparr>"

definition empty_storage :: local_storage where
  "empty_storage = \<lparr>item = None, getItem_throws = False, setItem_throws = False\<rparr>"



definition passed_nowcast_manifest :: manifest where
  "passed_nowcast_manifest = \<lparr>radar_past = [\<lparr>time = 1000, path = ''/past''\<rparr>],
     radar_nowcast = Some [\<lparr>time = 1100, path = ''/nowcast''\<rparr>], satellite_infrared = None\<rparr>"


section \<open>Properties of the map and of the merge\<close>

lemma latest_at_Nil [simp]: "latest_at [] t = None"
  by (simp add: latest_at_def)

lemma latest_at_snoc:
  "latest_at (fs @ [x]) t = (if time x = t then Some x else latest_at fs t)"
  by (simp add: latest_at_def)

lemma latest_at_SomeD: "latest_at fs t = Some f \<Longrightarrow> f \<in> set fs \<and> time f = t"
proof -
  assume a: "latest_at fs t = Some f"
  then have ne: "filter (\<lambda>f. time f = t) fs \<noteq> []" and l: "f = last (filter (\<lambda>f. time f = t) fs)"
    by (auto simp: latest_at_def Let_def split: if_splits)
  from ne have "last (filter (\<lambda>f. time f = t) fs) \<in> set (filter (\<lambda>f. time f = t) fs)"
    by (rule last_in_set)
  with l show ?thesis by simp
qed

lemma latest_at_None_iff: "latest_at fs t = None \<longleftrightarrow> t \<notin> time ` set fs"
  by (auto simp: latest_at_def Let_def filter_empty_conv)

lemma latest_at_distinct:
  "distinct (map time fs) \<Longrightarrow> f \<in> set fs \<Longrightarrow> latest_at fs (time f) = Some f"
proof (induction fs rule: rev_induct)
  case Nil
  then show ?case by simp
next
  case (snoc x xs)
  then show ?case by (auto simp: latest_at_snoc)
qed

lemma map_of_map_set: "map_of (map_set k v m) = (map_of m)(k \<mapsto> v)"
  by (induction m) (auto simp: fun_eq_iff)

lemma map_fst_map_set:
  "map fst (map_set k v m) = (if k \<in> fst ` set m then map fst m else map fst m @ [k])"
proof (induction m)
  case Nil
  then show ?case by simp
next
  case (Cons p m)
  obtain k' v' where p: "p = (k', v')" by (cases p)
  show ?case
  proof (cases "k' = k")
    case True
    then show ?thesis by (simp add: p)
  next
    case False
    with Cons.IH show ?thesis by (simp add: p)
  qed
qed

lemma distinct_map_set: "distinct (map fst m) \<Longrightarrow> distinct (map fst (map_set k v m))"
  by (simp add: map_fst_map_set)

lemma set_map_set_subset: "set (map_set k v m) \<subseteq> insert (k, v) (set m)"
  by (induction m) (auto split: if_splits)

lemma keyed_Nil: "keyed_by_time []"
  by (simp add: keyed_by_time_def)

lemma keyed_map_set: "keyed_by_time m \<Longrightarrow> keyed_by_time (map_set (time f) f m)"
  using set_map_set_subset [of "time f" f m]
  by (auto simp: keyed_by_time_def list_all_iff distinct_map_set)

lemma add_cached_filter: "add_cached c W m = add_new (filter (\<lambda>f. c \<le> time f) W) m"
  by (induction W arbitrary: m) (simp_all add: add_cached_def add_new_def)

lemma add_new_snoc: "add_new (fs @ [x]) m = map_set (time x) x (add_new fs m)"
  by (simp add: add_new_def)

lemma keyed_add_new: "keyed_by_time m \<Longrightarrow> keyed_by_time (add_new fs m)"
  by (induction fs rule: rev_induct) (simp_all add: add_new_snoc keyed_map_set add_new_def)

lemma map_of_add_new:
  "map_of (add_new fs m) t = (case latest_at fs t of None \<Rightarrow> map_of m t | Some f \<Rightarrow> Some f)"
proof (induction fs rule: rev_induct)
  case Nil
  then show ?case by (simp add: add_new_def)
next
  case (snoc x xs)
  then show ?case by (simp add: add_new_snoc map_of_map_set latest_at_snoc)
qed

lemma keyed_values:
  assumes "keyed_by_time m"
  shows "f \<in> set (map_values m) \<longleftrightarrow> map_of m (time f) = Some f"
    and "map time (map_values m) = map fst m"
proof -
  from assms have k: "\<And>k g. (k, g) \<in> set m \<Longrightarrow> k = time g" and d: "distinct (map fst m)"
    by (auto simp: keyed_by_time_def list_all_iff)
  show "f \<in> set (map_values m) \<longleftrightarrow> map_of m (time f) = Some f"
  proof
    assume "f \<in> set (map_values m)"
    then obtain k where "(k, f) \<in> set m" by (auto simp: map_values_def)
    with k have "(time f, f) \<in> set m" by auto
    with d show "map_of m (time f) = Some f" by simp
  next
    assume "map_of m (time f) = Some f"
    then have "(time f, f) \<in> set m" by (rule map_of_SomeD)
    then show "f \<in> set (map_values m)" by (force simp: map_values_def)
  qed
  show "map time (map_values m) = map fst m"
    using k by (auto simp: map_values_def)
qed

lemma keyed_frameMap: "keyed_by_time (add_new F (add_cached c W []))"
  by (simp add: add_cached_filter keyed_add_new keyed_Nil)

lemma merge_frames_set:
  "f \<in> set (merge_frames W F now a) \<longleftrightarrow> frame_at W F (now - a) (time f) = Some f"
proof -
  let ?m = "add_new F (add_cached (now - a) W [])"
  have "f \<in> set (merge_frames W F now a) \<longleftrightarrow> f \<in> set (map_values ?m)"
    by (simp add: merge_frames_def)
  also have "\<dots> \<longleftrightarrow> map_of ?m (time f) = Some f"
    using keyed_frameMap by (rule keyed_values)
  also have "\<dots> \<longleftrightarrow> frame_at W F (now - a) (time f) = Some f"
    by (simp add: map_of_add_new add_cached_filter frame_at_def split: option.splits)
  finally show ?thesis .
qed

lemma merge_frames_sorted: "sorted (map time (merge_frames W F now a))"
  by (simp add: merge_frames_def)

lemma merge_frames_distinct: "distinct (map time (merge_frames W F now a))"
proof -
  let ?m = "add_new F (add_cached (now - a) W [])"
  have "keyed_by_time ?m" by (rule keyed_frameMap)
  then have "distinct (map time (map_values ?m))"
    by (simp add: keyed_values(2) keyed_by_time_def)
  then have "distinct (map_values ?m)" and "inj_on time (set (map_values ?m))"
    by (simp_all add: distinct_map)
  then have "distinct (map time (sort_key time (map_values ?m)))"
    by (simp add: distinct_map)
  then show ?thesis by (simp add: merge_frames_def)
qed

lemma sorted_by_time_unique:
  assumes "sorted (map time xs)" "distinct (map time xs)"
    and "sorted (map time ys)" "distinct (map time ys)"
    and "set xs = set ys"
  shows "xs = ys"
proof -
  from assms(2,5) have "inj_on time (set xs \<union> set ys)"
    by (simp add: distinct_map)
  with assms show ?thesis
    by (rule_tac map_sorted_distinct_set_unique [of time]) simp_all
qed

lemma filter_time_single:
  "distinct (map time xs) \<Longrightarrow> f \<in> set xs \<Longrightarrow> filter (\<lambda>g. time g = time f) xs = [f]"
proof (induction xs)
  case Nil
  then show ?case by simp
next
  case (Cons x xs)
  show ?case
  proof (cases "x = f")
    case True
    with Cons.prems have "time f \<notin> time ` set xs" by simp
    then have "\<forall>g\<in>set xs. time g \<noteq> time f" by (metis imageI)
    then have "filter (\<lambda>g. time g = time f) xs = []" by (simp add: filter_empty_conv)
    with True show ?thesis by simp
  next
    case False
    with Cons.prems have "f \<in> set xs" "time x \<noteq> time f" by auto
    with Cons show ?thesis by simp
  qed
qed

text \<open>A time of the new frames is in the window exactly once, with a new frame.\<close>

lemma fresh_time_in_window:
  assumes "t \<in> time ` set F"
  shows "\<exists>f\<in>set F. time f = t \<and> f \<in> set (merge_frames W F now a)
           \<and> filter (\<lambda>g. time g = t) (merge_frames W F now a) = [f]"
proof -
  from assms obtain f where l: "latest_at F t = Some f"
    using latest_at_None_iff [of F t] by (cases "latest_at F t") auto
  then have f: "f \<in> set F" "time f = t" by (auto dest: latest_at_SomeD)
  from l f have m: "f \<in> set (merge_frames W F now a)"
    by (simp add: merge_frames_set frame_at_def)
  from merge_frames_distinct m
  have "filter (\<lambda>g. time g = time f) (merge_frames W F now a) = [f]"
    by (rule filter_time_single)
  with f m show ?thesis by auto
qed

text \<open>A frame of the window is a new frame, or a cached frame that passed the cutoff.\<close>

lemma window_frame_origin:
  assumes "f \<in> set (merge_frames W F now a)"
  shows "f \<in> set F \<or> (f \<in> set W \<and> now - a \<le> time f)"
proof (cases "latest_at F (time f)")
  case None
  with assms have "latest_at (filter (\<lambda>f. now - a \<le> time f) W) (time f) = Some f"
    by (simp add: merge_frames_set frame_at_def)
  then have "f \<in> set (filter (\<lambda>f. now - a \<le> time f) W)" by (auto dest: latest_at_SomeD)
  then show ?thesis by simp
next
  case (Some g)
  with assms have "g = f" by (simp add: merge_frames_set frame_at_def)
  with Some show ?thesis by (auto dest: latest_at_SomeD)
qed

lemma js_rem_nonneg: "0 \<le> a \<Longrightarrow> 0 < b \<Longrightarrow> js_rem a b = a mod b"
  by (cases "a = 0") (simp_all add: js_rem_def)

lemma or_zero_index:
  "or_zero (index gem i) = (if i < length gem then ToNumber (gem ! i) else 0)"
  by (cases "gem ! i") (simp_all add: index_def)

lemma fuse_series_nth:
  "i < length gfs \<Longrightarrow>
     fuse_series gfs gem ! i
       = max (ToNumber (gfs ! i)) (if i < length gem then ToNumber (gem ! i) else 0)"
  by (simp add: fuse_series_def Math_max_def or_zero_index)

lemma length_fuse_series: "length (fuse_series gfs gem) = length gfs"
  by (simp add: fuse_series_def)

text \<open>The loop over a stored array: it throws on a \<open>null\<close> entry and otherwise adds the frames.\<close>

lemma forEach_cached_eq:
  "forEach_cached c es m
     = (if Null_elem \<in> set es then Inl TypeError else Inr (add_cached c (frames_of es) m))"
proof (induction es arbitrary: m)
  case Nil
  then show ?case by (simp add: add_cached_def)
next
  case (Cons e es)
  then show ?case by (cases e) (simp_all add: add_cached_def)
qed

lemma merge_cached_eq:
  "merge_cached v F now a
     = (if well_formed_cache v then Inr (merge_frames (cached_frames v) F now a) else Inl TypeError)"
proof (cases v)
  case (JArray es)
  then show ?thesis by (simp add: merge_cached_def merge_frames_def forEach_cached_eq)
next
  case JOther
  then show ?thesis by (simp add: merge_cached_def)
qed




text \<open>
  The poll on a stored value the loop rejects: the TypeError reaches the outer \<open>catch\<close>, no
  window is delivered and nothing is written.
\<close>

lemma fetchFrames_TypeError:
  "\<not> well_formed_cache (load_cached st) \<Longrightarrow>
     fetchFrames_body (Inr data) date_now (ui, st) = Inl TypeError
     \<and> fetchFrames (Inr data) date_now (ui, st) = (ui, st)"
  by (simp add: fetchFrames_def fetchFrames_body_def Let_def merge_cached_eq)

lemma frames_of_map_Frame_elem [simp]: "frames_of (map Frame_elem fs) = fs"
  by (induction fs) simp_all

lemma persisted_frames_bound: "f \<in> set (persisted_frames allFrames now) \<Longrightarrow> time f \<le> now"
  by (simp add: persisted_frames_def)


section \<open>Snowfall fusion: claims C1 and C5\<close>

text \<open>
  Claim C1, as stated, fails where the secondary (GEM) series is the longer one. With the
  primary \<open>[1, 2]\<close> and the secondary \<open>[5, 0, 7]\<close> the code returns \<open>[5, 2]\<close>: the
  value 7 at index 2, which only the secondary has, is not passed through, while the
  fusion as the specification words it gives \<open>[5, 2, 7]\<close>.
\<close>

theorem fuse_series_drops_longer_secondary:
  "fuse_series [Num 1, Num 2] [Num 5, Num 0, Num 7] = [5, 2]
   \<and> fuse_series [Num 1, Num 2] [Num 5, Num 0, Num 7] \<noteq> fuse_spec [1, 2] [5, 0, 7]"
  by (simp add: fuse_series_def Math_max_def index_def upt_rec)

text \<open>
  Claim C1, amended: the fused series has exactly the length of the primary series. At
  each index of the primary it is the maximum of the primary value and the secondary value
  where the secondary has one, and the maximum of the primary value and 0 where the
  secondary has ended, which is the primary value unchanged when that value is not
  negative (\<open>null\<close> counts as 0 on either side).
\<close>

theorem fuse_series_max_over_primary:
  "length (fuse_series gfs gem) = length gfs
   \<and> (\<forall>i<length gfs.
        fuse_series gfs gem ! i
          = max (ToNumber (gfs ! i)) (if i < length gem then ToNumber (gem ! i) else 0)
        \<and> (length gem \<le> i \<and> 0 \<le> ToNumber (gfs ! i)
             \<longrightarrow> fuse_series gfs gem ! i = ToNumber (gfs ! i)))"
  by (simp add: length_fuse_series fuse_series_nth)

text \<open>The example of the specification: \<open>[1, 2, 3]\<close> with \<open>[5, 0]\<close> fuses to \<open>[5, 2, 3]\<close>.\<close>

theorem fuse_series_max_over_primary_witness:
  "fuse_series [Num 1, Num 2, Num 3] [Num 5, Num 0] ! 0 = 5
   \<and> fuse_series [Num 1, Num 2, Num 3] [Num 5, Num 0] ! 1 = 2
   \<and> fuse_series [Num 1, Num 2, Num 3] [Num 5, Num 0] ! 2 = 3
   \<and> length (fuse_series [Num 1, Num 2, Num 3] [Num 5, Num 0]) = 3"
proof -
  let ?p = "[Num 1, Num 2, Num 3]" and ?s = "[Num 5, Num 0]"
  note t = fuse_series_max_over_primary [of ?p ?s]
  from t have a: "\<forall>i<length ?p. fuse_series ?p ?s ! i
          = max (ToNumber (?p ! i)) (if i < length ?s then ToNumber (?s ! i) else 0)"
    by blast
  from a have "fuse_series ?p ?s ! 0 = 5" by simp
  moreover from a have "fuse_series ?p ?s ! 1 = 2" by simp
  moreover from a have "fuse_series ?p ?s ! 2 = 3" by simp
  moreover from t have "length (fuse_series ?p ?s) = 3" by simp
  ultimately show ?thesis by blast
qed

text \<open>
  Claim C5 asks that both series are in one physical unit before the maximum is taken. The
  GFS requests set \<open>precipitation_unit=inch\<close>, the GEM requests give no
  \<open>precipitation_unit\<close> at all (the service then answers in its metric default), and
  \<open>fuse_series\<close> compares the raw numbers with no conversion between the two: a GFS value
  of 1 and a GEM value of 2 fuse to 2.
\<close>

theorem snowfall_requests_differ_in_unit:
  "query_param gfs_extended_query ''precipitation_unit'' = Some ''inch''
   \<and> query_param gem_extended_query ''precipitation_unit'' = None
   \<and> query_param gfs_daily_query ''precipitation_unit'' = Some ''inch''
   \<and> query_param gem_daily_query ''precipitation_unit'' = None
   \<and> fuse_series [Num 1] [Num 2] = [2]"
  by (simp add: query_param_def gfs_extended_query_def gem_extended_query_def
      gfs_daily_query_def gem_daily_query_def fuse_series_def Math_max_def index_def)


section \<open>The frame merge: claims C2, C3 and C4\<close>

text \<open>
  Claim C2: for every frame time \<open>t\<close> present in both the cached window and the fresh
  batch, the merge output holds exactly one frame at \<open>t\<close>, and it is a frame of the fresh
  batch, in whatever order the cached frames and the fresh frames are iterated (\<open>W'\<close> and
  \<open>F'\<close> are any rearrangements of \<open>W\<close> and \<open>F\<close>).
\<close>

theorem merge_frames_fresh_wins:
  assumes "t \<in> time ` set W" and "t \<in> time ` set F"
    and "mset W' = mset W" and "mset F' = mset F"
  shows "\<exists>f\<in>set F. time f = t \<and> filter (\<lambda>g. time g = t) (merge_frames W' F' now a) = [f]"
proof -
  from assms(4) have s: "set F' = set F" by (rule mset_eq_setD)
  with assms(2) have "t \<in> time ` set F'" by simp
  from fresh_time_in_window [OF this, of W' now a] s show ?thesis by auto
qed

text \<open>At time 20 the fresh frame replaces the cached one, both lists being iterated in another order.\<close>

theorem merge_frames_fresh_wins_witness:
  "filter (\<lambda>g. time g = 20)
     (merge_frames [\<lparr>time = 20, path = ''/cached20''\<rparr>, \<lparr>time = 10, path = ''/cached10''\<rparr>]
                   [\<lparr>time = 30, path = ''/fresh30''\<rparr>, \<lparr>time = 20, path = ''/fresh20''\<rparr>] 40 100)
     = [\<lparr>time = 20, path = ''/fresh20''\<rparr>]"
proof -
  let ?W = "[\<lparr>time = 10, path = ''/cached10''\<rparr>, \<lparr>time = 20, path = ''/cached20''\<rparr>]"
  let ?F = "[\<lparr>time = 20, path = ''/fresh20''\<rparr>, \<lparr>time = 30, path = ''/fresh30''\<rparr>]"
  let ?W' = "[\<lparr>time = 20, path = ''/cached20''\<rparr>, \<lparr>time = 10, path = ''/cached10''\<rparr>]"
  let ?F' = "[\<lparr>time = 30, path = ''/fresh30''\<rparr>, \<lparr>time = 20, path = ''/fresh20''\<rparr>]"
  have 1: "20 \<in> time ` set ?W" and 2: "20 \<in> time ` set ?F" by simp_all
  have 3: "mset ?W' = mset ?W" and 4: "mset ?F' = mset ?F" by (simp_all add: add.commute)
  from merge_frames_fresh_wins [OF 1 2 3 4, of 40 100]
  show ?thesis by auto
qed

text \<open>
  Claim C3, as stated, fails for a frame of the fresh batch: with an empty cache, a fresh
  frame of time 0 and \<open>now = 100000\<close>, \<open>maxAgeSeconds = 14400\<close>, the frame is in the
  output although its time is below \<open>now - maxAgeSeconds = 85600\<close>.
\<close>

theorem merge_frames_keeps_old_fresh_frame:
  "\<lparr>time = 0, path = ''/old''\<rparr> \<in> set (merge_frames [] [\<lparr>time = 0, path = ''/old''\<rparr>] 100000 14400)
   \<and> \<not> (time \<lparr>time = 0, path = ''/old''\<rparr> \<ge> 100000 - 14400)"
  by (simp add: merge_frames_def add_new_def add_cached_def map_values_def)

text \<open>
  Claim C3, amended: every frame of the merge output either arrived in the fresh batch or
  is a cached frame with \<open>time >= now - maxAgeSeconds\<close>; only cached frames are dropped
  for their age, and every time of the fresh batch is in the output whatever its age.
\<close>

theorem merge_frames_retention:
  "(\<forall>f\<in>set (merge_frames W F now a). f \<in> set F \<or> (f \<in> set W \<and> time f \<ge> now - a))
   \<and> (\<forall>g\<in>set F. time g \<in> time ` set (merge_frames W F now a))"
proof (intro conjI ballI)
  fix f assume "f \<in> set (merge_frames W F now a)"
  then show "f \<in> set F \<or> (f \<in> set W \<and> time f \<ge> now - a)" by (rule window_frame_origin)
next
  fix g assume "g \<in> set F"
  then have "time g \<in> time ` set F" by simp
  from fresh_time_in_window [OF this, of W now a]
  obtain f where "time f = time g" and "f \<in> set (merge_frames W F now a)" by blast
  then show "time g \<in> time ` set (merge_frames W F now a)" by (metis imageI)
qed

text \<open>The cached frame of time 10 is dropped, the cached frame of time 90000 and the fresh frame stay.\<close>

theorem merge_frames_retention_witness:
  "set (merge_frames [\<lparr>time = 10, path = ''/c10''\<rparr>, \<lparr>time = 90000, path = ''/c90000''\<rparr>]
                     [\<lparr>time = 99000, path = ''/n99000''\<rparr>] 100000 14400)
     = {\<lparr>time = 90000, path = ''/c90000''\<rparr>, \<lparr>time = 99000, path = ''/n99000''\<rparr>}
   \<and> (100000::int) - 14400 \<le> 90000"
  using merge_frames_retention [of "[\<lparr>time = 10, path = ''/c10''\<rparr>, \<lparr>time = 90000, path = ''/c90000''\<rparr>]"
          "[\<lparr>time = 99000, path = ''/n99000''\<rparr>]" 100000 14400]
  by (simp add: merge_frames_def add_new_def add_cached_def map_values_def insert_commute)

text \<open>
  Claim C4: merging the same fresh batch a second time into the result of the first merge
  (same \<open>now\<close>, same \<open>maxAgeSeconds\<close>) gives the same window:
  \<open>merge(merge(W, F), F) = merge(W, F)\<close>.
\<close>

theorem merge_frames_idempotent:
  "merge_frames (merge_frames W F now a) F now a = merge_frames W F now a"
proof (rule sorted_by_time_unique)
  let ?M = "merge_frames W F now a"
  let ?c = "now - a"
  show "set (merge_frames ?M F now a) = set ?M"
  proof (rule set_eqI)
    fix f
    show "f \<in> set (merge_frames ?M F now a) \<longleftrightarrow> f \<in> set ?M"
    proof (cases "latest_at F (time f)")
      case (Some g)
      then show ?thesis by (simp add: merge_frames_set frame_at_def)
    next
      case None
      have dM: "distinct (map time (filter (\<lambda>f. ?c \<le> time f) ?M))"
        using merge_frames_distinct [of W F now a] by (simp add: distinct_map_filter)
      have "latest_at (filter (\<lambda>f. ?c \<le> time f) ?M) (time f) = Some f
            \<longleftrightarrow> latest_at (filter (\<lambda>f. ?c \<le> time f) W) (time f) = Some f"
      proof
        assume "latest_at (filter (\<lambda>f. ?c \<le> time f) ?M) (time f) = Some f"
        then have "f \<in> set ?M" by (auto dest: latest_at_SomeD)
        with None show "latest_at (filter (\<lambda>f. ?c \<le> time f) W) (time f) = Some f"
          by (simp add: merge_frames_set frame_at_def)
      next
        assume w: "latest_at (filter (\<lambda>f. ?c \<le> time f) W) (time f) = Some f"
        with None have "f \<in> set ?M" by (simp add: merge_frames_set frame_at_def)
        moreover from w have "?c \<le> time f" by (auto dest: latest_at_SomeD)
        ultimately have "f \<in> set (filter (\<lambda>f. ?c \<le> time f) ?M)" by simp
        with dM show "latest_at (filter (\<lambda>f. ?c \<le> time f) ?M) (time f) = Some f"
          by (rule latest_at_distinct)
      qed
      with None show ?thesis by (simp add: merge_frames_set frame_at_def)
    qed
  qed
qed (rule merge_frames_sorted merge_frames_distinct)+

section \<open>Playback: claims C6 and C7\<close>

text \<open>
  Claim C6: for every non-empty frame window of length \<open>n\<close> and every current index \<open>i\<close>
  with \<open>0 <= i < n\<close>, one playback advance step yields the index \<open>(i + 1) mod n\<close>, which
  stays inside the window; at \<open>n - 1\<close> it wraps to 0. This holds for the updater and for a
  firing of the timer of \<open>RadarTab\<close> (while playing) and of \<open>MiniRadar\<close> (once the zoom
  has completed).
\<close>

theorem advance_wraps:
  assumes "0 < len" and "0 \<le> i" and "i < int len"
  shows "advance len i = (i + 1) mod int len
       \<and> (i = int len - 1 \<longrightarrow> advance len i = 0)
       \<and> 0 \<le> advance len i \<and> advance len i < int len
       \<and> (isPlaying s \<and> length (radarFrames s) = len \<and> currentFrame s = i
            \<longrightarrow> currentFrame (playback_tick s) = (i + 1) mod int len)
       \<and> (zoomComplete m \<and> length (mini_radarFrames m) = len \<and> mini_currentFrame m = i
            \<longrightarrow> mini_currentFrame (mini_playback_tick m) = (i + 1) mod int len)"
proof -
  from assms have a: "advance len i = (i + 1) mod int len"
    by (simp add: advance_def js_rem_nonneg)
  from assms a show ?thesis
    by (auto simp: playback_tick_def mini_playback_tick_def)
qed

text \<open>A window of length 5 at index 4: one step yields index 0.\<close>

theorem advance_wraps_witness:
  "advance 5 4 = 0
   \<and> currentFrame (playback_tick \<lparr>radarFrames = five_frames, satelliteFrames = [],
        currentFrame = 4, isPlaying = True\<rparr>) = 0
   \<and> mini_currentFrame (mini_playback_tick \<lparr>mini_radarFrames = five_frames,
        mini_currentFrame = 4, zoomComplete = True\<rparr>) = 0"
proof -
  have h: "0 < (5::nat)" "(0::int) \<le> 4" "(4::int) < int 5" by simp_all
  from advance_wraps [OF h, of "\<lparr>radarFrames = five_frames, satelliteFrames = [],
        currentFrame = 4, isPlaying = True\<rparr>" "\<lparr>mini_radarFrames = five_frames,
        mini_currentFrame = 4, zoomComplete = True\<rparr>"]
  show ?thesis by (simp add: five_frames_def)
qed

text \<open>
  Claim C7: a scrub always leaves \<open>isPlaying\<close> false, whatever it was before, and leaves
  the window as it is; on a non-empty window the index it sets is the requested one
  clamped into \<open>[0, length - 1]\<close>. The handler alone already forces \<open>isPlaying\<close> to
  false for any value it is given.
\<close>

theorem scrub_clamps_and_pauses:
  "isPlaying (scrub s requested) = False
   \<and> isPlaying (scrubber_onChange s v) = False
   \<and> radarFrames (scrub s requested) = radarFrames s
   \<and> (radarFrames s \<noteq> [] \<longrightarrow>
        0 \<le> currentFrame (scrub s requested)
        \<and> currentFrame (scrub s requested) \<le> int (length (radarFrames s)) - 1
        \<and> (requested < 0 \<longrightarrow> currentFrame (scrub s requested) = 0)
        \<and> (int (length (radarFrames s)) - 1 < requested
              \<longrightarrow> currentFrame (scrub s requested) = int (length (radarFrames s)) - 1)
        \<and> (0 \<le> requested \<and> requested \<le> int (length (radarFrames s)) - 1
              \<longrightarrow> currentFrame (scrub s requested) = requested))"
  by (cases "radarFrames s") (auto simp: scrub_def scrubber_onChange_def range_input_value_def)

text \<open>Scrubbing to 9 on a playing window of length 5 stops playback at index 4.\<close>

theorem scrub_clamps_and_pauses_witness:
  "isPlaying (scrub \<lparr>radarFrames = five_frames, satelliteFrames = [],
        currentFrame = 2, isPlaying = True\<rparr> 9) = False
   \<and> currentFrame (scrub \<lparr>radarFrames = five_frames, satelliteFrames = [],
        currentFrame = 2, isPlaying = True\<rparr> 9) = 4"
  using scrub_clamps_and_pauses [of "\<lparr>radarFrames = five_frames, satelliteFrames = [],
        currentFrame = 2, isPlaying = True\<rparr>" 9 0]
  by (simp add: five_frames_def)


section \<open>Persistence: claims C8 and C10\<close>




text \<open>
  Claim C10 says that forecast (nowcast) frames are played but never written to storage,
  as the comment at the write has it (only past, not nowcast). The write keeps the frames
  with \<open>f.time <= now\<close> whichever list they came from. With the past frame of time 1000
  and the nowcast frame of time 1100 polled at second 1200, the nowcast frame is written
  with the past frame, and the next poll reads it back.
\<close>

theorem nowcast_frame_is_persisted:
  "radar_nowcast passed_nowcast_manifest = Some [\<lparr>time = 1100, path = ''/nowcast''\<rparr>]
   \<and> now_seconds 1200000 = 1200
   \<and> item (snd (fetchFrames (Inr passed_nowcast_manifest) 1200000 (sample_tab, empty_storage)))
       = Some (JSON_stringify [\<lparr>time = 1000, path = ''/past''\<rparr>, \<lparr>time = 1100, path = ''/nowcast''\<rparr>])
   \<and> cached_frames (load_cached
         (snd (fetchFrames (Inr passed_nowcast_manifest) 1200000 (sample_tab, empty_storage))))
       = [\<lparr>time = 1000, path = ''/past''\<rparr>, \<lparr>time = 1100, path = ''/nowcast''\<rparr>]"
  by (simp add: fetchFrames_def fetchFrames_body_def Let_def passed_nowcast_manifest_def
        sample_tab_def empty_storage_def JSON_stringify_def merge_cached_def
        newFrames_of_def now_seconds_def MAX_AGE_SECONDS_def MAX_AGE_HOURS_def
        add_new_def map_values_def save_cached_def setItem_def persisted_frames_def
        load_cached_def getItem_def)


section \<open>Classification bands: claim C9\<close>

text \<open>
  Claim C9: the AQI classifier returns Good up to and including 50, Moderate above 50 up
  to 100, Unhealthy for Sensitive up to 150, Unhealthy up to 200, Very Unhealthy up to 300
  and Hazardous above 300; the UV classifier returns Low up to 2, Moderate up to 5, High up
  to 7, Very High up to 10 and Extreme above 10. Each upper boundary belongs to its band.
\<close>

theorem aqi_uv_bands:
  "(aqi \<le> 50 \<longrightarrow> label (getAqiLevel aqi) = ''Good'')
   \<and> (50 < aqi \<and> aqi \<le> 100 \<longrightarrow> label (getAqiLevel aqi) = ''Moderate'')
   \<and> (100 < aqi \<and> aqi \<le> 150 \<longrightarrow> label (getAqiLevel aqi) = ''Unhealthy for Sensitive'')
   \<and> (150 < aqi \<and> aqi \<le> 200 \<longrightarrow> label (getAqiLevel aqi) = ''Unhealthy'')
   \<and> (200 < aqi \<and> aqi \<le> 300 \<longrightarrow> label (getAqiLevel aqi) = ''Very Unhealthy'')
   \<and> (300 < aqi \<longrightarrow> label (getAqiLevel aqi) = ''Hazardous'')
   \<and> (uv \<le> 2 \<longrightarrow> uv_label (getUvLevel uv) = ''Low'')
   \<and> (2 < uv \<and> uv \<le> 5 \<longrightarrow> uv_label (getUvLevel uv) = ''Moderate'')
   \<and> (5 < uv \<and> uv \<le> 7 \<longrightarrow> uv_label (getUvLevel uv) = ''High'')
   \<and> (7 < uv \<and> uv \<le> 10 \<longrightarrow> uv_label (getUvLevel uv) = ''Very High'')
   \<and> (10 < uv \<longrightarrow> uv_label (getUvLevel uv) = ''Extreme'')"
  by (simp add: getAqiLevel_def getUvLevel_def)

text \<open>The boundaries: 50 is Good and 51 is Moderate, and so on for each band.\<close>

theorem aqi_uv_bands_witness:
  "label (getAqiLevel 50) = ''Good'' \<and> label (getAqiLevel 51) = ''Moderate''
   \<and> label (getAqiLevel 101) = ''Unhealthy for Sensitive'' \<and> label (getAqiLevel 151) = ''Unhealthy''
   \<and> label (getAqiLevel 201) = ''Very Unhealthy'' \<and> label (getAqiLevel 301) = ''Hazardous''
   \<and> uv_label (getUvLevel 2) = ''Low'' \<and> uv_label (getUvLevel 5) = ''Moderate''
   \<and> uv_label (getUvLevel 7) = ''High'' \<and> uv_label (getUvLevel 10) = ''Very High''
   \<and> uv_label (getUvLevel 11) = ''Extreme''"
  using aqi_uv_bands [of 50 2] aqi_uv_bands [of 51 5] aqi_uv_bands [of 101 7]
    aqi_uv_bands [of 151 10] aqi_uv_bands [of 201 11] aqi_uv_bands [of 301 11]
  by simp

end
